theory Spec2Isabelle
  imports Main
begin

section \<open>Python values, strings and exceptions\<close>

text \<open>
  A Python \<open>str\<close> is a sequence of Unicode code points. Python has no character type: a
  "character" is a \<open>str\<close> of length one, so the functions of the source that are only ever
  applied to such a string (\<open>clean\<close>, \<open>is_emoticon\<close>, \<open>hash_char\<close>, the cursors) take the
  code point itself. String literals of the source are written with \<open>py\<close>.
\<close>

type_synonym codepoint = nat
type_synonym pystr = "codepoint list"

definition py :: "string \<Rightarrow> pystr" where
  "py s = map of_char s"

text \<open>The values a caller can pass where the source expects a string.\<close>

datatype pyval = PyNone | PyStr pystr | PyInt int | PyBool bool

datatype exn = InvalidInputError pystr | UnallowedCharacterError pystr

text \<open>
  The part of Python's Unicode database that the source consults through \<open>str.isalpha\<close>,
  \<open>str.isspace\<close>, \<open>str.isupper\<close>, \<open>str.lower\<close>, \<open>str.upper\<close>,
  \<open>unicodedata.category\<close>, \<open>unicodedata.normalize('NFC', _)\<close> and the built-in \<open>hash\<close>
  of a string. It belongs to the interpreter, not to the program, and is a parameter.
  The source uses \<open>unicodedata.category(c)\<close> only in the test \<open>category(c) == 'Mn'\<close>,
  which is the field \<open>category_Mn\<close>.
\<close>

record unicode =
  isalpha :: "codepoint \<Rightarrow> bool"
  isspace :: "codepoint \<Rightarrow> bool"
  isupper :: "codepoint \<Rightarrow> bool"
  lower :: "codepoint \<Rightarrow> pystr"
  upper :: "codepoint \<Rightarrow> pystr"
  category_Mn :: "codepoint \<Rightarrow> bool"
  normalize_NFC :: "pystr \<Rightarrow> pystr"
  hash_str :: "pystr \<Rightarrow> int"

text \<open>\<open>s.isspace()\<close> on a whole string: every character is whitespace and there is one.\<close>

definition str_isspace :: "unicode \<Rightarrow> pystr \<Rightarrow> bool" where
  "str_isspace U s = (s \<noteq> [] \<and> list_all (isspace U) s)"

section \<open>Character classification and hashing\<close>

definition ALLOWED_EMOJIS :: "pystr list" where
  "ALLOWED_EMOJIS =
    [[128522], [128522, 127995], [128522, 127996], [128522, 127997], [128522, 127998], [128522, 127999],
     [128077], [128077, 127995], [128077, 127996], [128077, 127997], [128077, 127998], [128077, 127999],
     [128640],
     [128588], [128588, 127995], [128588, 127996], [128588, 127997], [128588, 127998], [128588, 127999],
     [128075], [128075, 127995], [128075, 127996], [128075, 127997], [128075, 127998], [128075, 127999],
     [127775],
     [128062]]"

definition is_null :: "pyval \<Rightarrow> bool" where
  "is_null s = (s = PyNone)"

definition is_empty :: "unicode \<Rightarrow> pystr \<Rightarrow> bool" where
  "is_empty U s = (length s = 0 \<or> str_isspace U s)"

definition is_emoticon :: "unicode \<Rightarrow> codepoint \<Rightarrow> codepoint \<times> bool" where
  "is_emoticon U char =
     (if isalpha U char \<or> isspace U char then (char, False)
      else (char, [char] \<in> set ALLOWED_EMOJIS))"

definition clean :: "unicode \<Rightarrow> codepoint \<Rightarrow> codepoint list option \<Rightarrow> exn + bool" where
  "clean U char valid_chars =
     (if isspace U char \<or> category_Mn U char then Inr False
      else case valid_chars of
        Some vs \<Rightarrow> Inr (char \<in> set vs)
      | None \<Rightarrow>
          if isalpha U char then Inr True
          else let (_, is_allowed) = is_emoticon U char in
            if \<not> is_allowed
            then Inl (UnallowedCharacterError (py ''Unallowed character '' @ [39, char, 39]))
            else Inr True)"

text \<open>\<open>any(clean(c, valid_chars) for c in s)\<close>: stops at the first true, raises where \<open>clean\<close> does.\<close>

fun has_valid_chars :: "unicode \<Rightarrow> pystr \<Rightarrow> codepoint list option \<Rightarrow> exn + bool" where
  "has_valid_chars U [] valid_chars = Inr False"
| "has_valid_chars U (c # s) valid_chars =
     (case clean U c valid_chars of
        Inl e \<Rightarrow> Inl e
      | Inr True \<Rightarrow> Inr True
      | Inr False \<Rightarrow> has_valid_chars U s valid_chars)"

type_synonym cache = "codepoint \<rightharpoonup> int"

definition hash_char :: "unicode \<Rightarrow> codepoint \<Rightarrow> cache option \<Rightarrow> int \<times> cache option" where
  "hash_char U c cache =
     (case (case cache of Some m \<Rightarrow> m c | None \<Rightarrow> None) of
        Some h \<Rightarrow> (h, cache)
      | None \<Rightarrow>
          let normalized = normalize_NFC U (lower U c);
              result = (if normalized \<noteq> [] \<and> isalpha U (hd normalized)
                        then int (hd normalized) else hash_str U normalized)
          in (result, map_option (\<lambda>m. m(c \<mapsto> result)) cache))"

section \<open>Cursors\<close>

text \<open>
  \<open>Left\<close> and \<open>Right\<close> have the same fields. The \<open>buffer\<close> field is a reference to the
  list owned by the processor; the list is never modified while a cursor is in use, so
  the methods take the processor's buffer as an argument. The \<open>hash_cache\<close> argument of
  \<open>get_hash\<close> is always the processor's dictionary.
\<close>

type_synonym recorded = "codepoint \<times> bool \<times> bool \<times> bool"

record cursor =
  pos :: int
  cdirection :: string
  cvalid_chars :: "codepoint list option"
  cvalid :: bool
  chars :: "recorded list"

definition Left_init :: "int \<Rightarrow> string \<Rightarrow> codepoint list option \<Rightarrow> cursor" where
  "Left_init p d vc = \<lparr>pos = p, cdirection = d, cvalid_chars = vc, cvalid = True, chars = []\<rparr>"

definition Right_init :: "int \<Rightarrow> string \<Rightarrow> codepoint list option \<Rightarrow> cursor" where
  "Right_init p d vc = \<lparr>pos = p, cdirection = d, cvalid_chars = vc, cvalid = True, chars = []\<rparr>"

definition set_char :: "cursor \<Rightarrow> recorded \<Rightarrow> cursor" where
  "set_char cur r = cur\<lparr>chars := chars cur @ [r]\<rparr>"

definition cached :: "cache \<Rightarrow> int \<times> cache option \<Rightarrow> int \<times> cache" where
  "cached m r = (fst r, case snd r of Some m' \<Rightarrow> m' | None \<Rightarrow> m)"

definition Left_get_hash ::
  "unicode \<Rightarrow> codepoint list \<Rightarrow> cache \<Rightarrow> cursor \<Rightarrow> (exn + int option) \<times> cursor \<times> cache" where
  "Left_get_hash U buf hash_cache cur =
     (if \<not> cvalid cur \<or> pos cur < 0 \<or> pos cur \<ge> int (length buf)
      then (Inr None, cur\<lparr>cvalid := False\<rparr>, hash_cache)
      else let char = buf ! nat (pos cur) in
        case clean U char (cvalid_chars cur) of
          Inl e \<Rightarrow> (Inl e, cur, hash_cache)
        | Inr False \<Rightarrow> (Inr None, cur\<lparr>cvalid := False\<rparr>, hash_cache)
        | Inr True \<Rightarrow>
            if isalpha U char
            then let (h, c') = cached hash_cache (hash_char U char (Some hash_cache))
                 in (Inr (Some h), set_char cur (char, isupper U char, False, True), c')
            else let (_, is_allowed) = is_emoticon U char in
              if \<not> is_allowed then (Inr None, cur\<lparr>cvalid := False\<rparr>, hash_cache)
              else let (h, c') = cached hash_cache (hash_char U char (Some hash_cache))
                   in (Inr (Some h), set_char cur (char, False, is_allowed, is_allowed), c'))"

definition Left_advance :: "codepoint list \<Rightarrow> cursor \<Rightarrow> cursor" where
  "Left_advance buf cur =
     (let cur' = cur\<lparr>pos := pos cur + (if cdirection cur \<in> {''ltr'', ''center-out''} then 1 else - 1)\<rparr>
      in if pos cur' < 0 \<or> pos cur' \<ge> int (length buf) then cur'\<lparr>cvalid := False\<rparr> else cur')"

definition Right_get_hash ::
  "unicode \<Rightarrow> codepoint list \<Rightarrow> cache \<Rightarrow> cursor \<Rightarrow> (exn + int option) \<times> cursor \<times> cache" where
  "Right_get_hash U buf hash_cache cur =
     (if \<not> cvalid cur \<or> pos cur < 0 \<or> pos cur \<ge> int (length buf)
      then (Inr None, cur\<lparr>cvalid := False\<rparr>, hash_cache)
      else let char = buf ! nat (pos cur) in
        case clean U char (cvalid_chars cur) of
          Inl e \<Rightarrow> (Inl e, cur, hash_cache)
        | Inr False \<Rightarrow> (Inr None, cur\<lparr>cvalid := False\<rparr>, hash_cache)
        | Inr True \<Rightarrow>
            if \<not> isalpha U char \<and> \<not> snd (is_emoticon U char)
            then (Inr None, cur\<lparr>cvalid := False\<rparr>, hash_cache)
            else let (h, c') = cached hash_cache (hash_char U char (Some hash_cache))
                 in (Inr (Some h), cur, c'))"

text \<open>
  In the source the step is \<open>self.pos -= 1 if self.direction in ["ltr", "center-out"] else 1\<close>:
  the conditional expression is the whole right-hand side, and both of its branches are 1.
\<close>

definition Right_advance :: "codepoint list \<Rightarrow> cursor \<Rightarrow> cursor" where
  "Right_advance buf cur =
     (let cur' = cur\<lparr>pos := pos cur - (if cdirection cur \<in> {''ltr'', ''center-out''} then 1 else 1)\<rparr>
      in if pos cur' < 0 \<or> pos cur' \<ge> int (length buf) then cur'\<lparr>cvalid := False\<rparr> else cur')"

section \<open>The stream processor\<close>

record stream_processor =
  buffer :: "codepoint list"
  direction :: string
  valid_chars :: "codepoint list option"
  left :: "cursor option"
  right :: "cursor option"
  center :: int
  valid :: bool
  error_msg :: "pystr option"
  stopped :: bool
  skipped_diacritics :: int
  skipped_spaces :: int
  hash_cache :: cache

definition StreamProcessor :: "string \<Rightarrow> codepoint list option \<Rightarrow> stream_processor" where
  "StreamProcessor d vc =
     \<lparr>buffer = [], direction = d, valid_chars = vc, left = None, right = None, center = - 1,
      valid = True, error_msg = None, stopped = False, skipped_diacritics = 0,
      skipped_spaces = 0, hash_cache = Map.empty\<rparr>"

definition reset :: "stream_processor \<Rightarrow> stream_processor" where
  "reset s = s\<lparr>buffer := [], valid := True, error_msg := None, stopped := False,
               skipped_diacritics := 0, skipped_spaces := 0, hash_cache := Map.empty,
               left := None, right := None, center := - 1\<rparr>"

text \<open>How the \<open>while\<close> loop of \<open>process_char\<close> is left.\<close>

datatype loop_exit = Raised exn | Mismatch | Exited

function validate_loop ::
  "unicode \<Rightarrow> codepoint list \<Rightarrow> string \<Rightarrow> cursor \<Rightarrow> cursor \<Rightarrow> cache
     \<Rightarrow> loop_exit \<times> cursor \<times> cursor \<times> cache" where
  "validate_loop U buf dir l r hc =
     (if cvalid l \<and> cvalid r \<and>
         ((dir \<in> {''ltr'', ''center-out''} \<and> pos l < pos r) \<or> (dir = ''rtl'' \<and> pos l > pos r))
      then (case Left_get_hash U buf hc l of
              (Inl e, l', hc') \<Rightarrow> (Raised e, l', r, hc')
            | (Inr left_hash, l', hc') \<Rightarrow>
                (case Right_get_hash U buf hc' r of
                   (Inl e, r', hc'') \<Rightarrow> (Raised e, l', r', hc'')
                 | (Inr right_hash, r', hc'') \<Rightarrow>
                     if left_hash = None \<or> right_hash = None \<or> left_hash \<noteq> right_hash
                     then (Mismatch, l', r', hc'')
                     else validate_loop U buf dir (Left_advance buf l') (Right_advance buf r') hc''))
      else (Exited, l, r, hc))"
  by pat_completeness auto
termination
  apply (relation "measure (\<lambda>(U, buf, dir, l, r, hc). nat (pos r + 1))")
  apply simp
  apply (auto simp: Right_get_hash_def Right_advance_def Let_def
                split: if_splits sum.splits bool.splits prod.splits)
  done

declare validate_loop.simps [simp del]

type_synonym verdict = "bool \<times> pystr option \<times> recorded list"

text \<open>
  The \<open>except UnallowedCharacterError\<close> clause of \<open>process_char\<close>. The only exception raised
  inside the \<open>try\<close> block is the one of \<open>clean\<close>, called directly or from \<open>get_hash\<close>; the
  message stored is \<open>f"Character Error: {e}"\<close>.
\<close>

definition on_UnallowedCharacterError ::
  "exn \<Rightarrow> stream_processor \<Rightarrow> verdict \<times> stream_processor" where
  "on_UnallowedCharacterError e s =
     (let msg = py ''Character Error: '' @ (case e of UnallowedCharacterError m \<Rightarrow> m | InvalidInputError m \<Rightarrow> m)
      in ((False, Some msg, []), s\<lparr>valid := False, error_msg := Some msg, stopped := True\<rparr>))"

text \<open>
  \<open>process_char\<close> returns the triple of the source together with the processor after the
  call. The test \<open>is_null(char) or not isinstance(char, str) or len(char) != 1\<close> is the
  case distinction on the argument: only \<open>PyStr [c]\<close> passes it.
\<close>

definition process_char ::
  "unicode \<Rightarrow> pyval \<Rightarrow> bool \<Rightarrow> stream_processor \<Rightarrow> verdict \<times> stream_processor" where
  "process_char U char auto_reset s0 =
     (if stopped s0 \<and> \<not> auto_reset then ((False, error_msg s0, []), s0)
      else let s = (if stopped s0 then reset s0 else s0) in
        case char of
          PyStr [c] \<Rightarrow>
            if isspace U c
            then ((False, None, []), s\<lparr>skipped_spaces := skipped_spaces s + 1\<rparr>)
            else if category_Mn U c
            then ((False, None, []), s\<lparr>skipped_diacritics := skipped_diacritics s + 1\<rparr>)
            else (case clean U c (valid_chars s) of
                Inl e \<Rightarrow> on_UnallowedCharacterError e s
              | Inr False \<Rightarrow> ((False, None, []), s)
              | Inr True \<Rightarrow>
                  let s1 = s\<lparr>buffer := buffer s @ [c]\<rparr>;
                      n = int (length (buffer s1));
                      s2 = (if direction s1 = ''center-out'' then s1\<lparr>center := n div 2\<rparr> else s1);
                      left_pos = (if direction s2 = ''center-out'' then center s2 - n div 2
                                  else if direction s2 = ''ltr'' then 0 else n - 1);
                      right_pos = (if direction s2 = ''center-out'' then center s2 + n div 2
                                   else if direction s2 = ''ltr'' then n - 1 else 0);
                      l0 = Left_init left_pos (direction s2) (valid_chars s2);
                      r0 = Right_init right_pos (direction s2) (valid_chars s2)
                  in (case validate_loop U (buffer s2) (direction s2) l0 r0 (hash_cache s2) of
                        (Raised e, l, r, hc) \<Rightarrow>
                          on_UnallowedCharacterError e (s2\<lparr>left := Some l, right := Some r, hash_cache := hc\<rparr>)
                      | (Mismatch, l, r, hc) \<Rightarrow>
                          ((False, error_msg s2, []),
                           s2\<lparr>left := Some l, right := Some r, hash_cache := hc, valid := False\<rparr>)
                      | (Exited, l, r, hc) \<Rightarrow>
                          let v = (cvalid l \<and> cvalid r) in
                          ((v, None, if v then chars l else []),
                           s2\<lparr>left := Some l, right := Some r, hash_cache := hc, valid := v,
                              error_msg := None\<rparr>)))
        | _ \<Rightarrow>
            let msg = py ''Input Error: Invalid character'' in
            ((False, Some msg, []), s\<lparr>valid := False, error_msg := Some msg, stopped := True\<rparr>))"

text \<open>
  Iterating over a Python string yields its characters as strings of length one. \<open>feed\<close>
  gives the characters to \<open>process_char\<close> one after the other, as the loop of
  \<open>stream_palindrome\<close> does, and collects the results.
\<close>

definition chars_of :: "pystr \<Rightarrow> pyval list" where
  "chars_of s = map (\<lambda>c. PyStr [c]) s"

fun feed ::
  "unicode \<Rightarrow> pyval list \<Rightarrow> bool \<Rightarrow> stream_processor \<Rightarrow> verdict list \<times> stream_processor" where
  "feed U [] auto_reset s = ([], s)"
| "feed U (char # rest) auto_reset s =
     (let (v, s') = process_char U char auto_reset s;
          (vs, s'') = feed U rest auto_reset s'
      in (v # vs, s''))"

section \<open>Rendering\<close>

text \<open>\<open>str(n)\<close> for a non-negative integer.\<close>

function str_of_nat :: "nat \<Rightarrow> pystr" where
  "str_of_nat n = (if n < 10 then [48 + n] else str_of_nat (n div 10) @ [48 + n mod 10])"
  by pat_completeness auto
termination
  by (relation "measure id") auto

declare str_of_nat.simps [simp del]

text \<open>\<open>len([c for c in word if clean(c)])\<close>.\<close>

fun count_clean :: "unicode \<Rightarrow> pystr \<Rightarrow> exn + nat" where
  "count_clean U [] = Inr 0"
| "count_clean U (c # s) =
     (case clean U c None of
        Inl e \<Rightarrow> Inl e
      | Inr b \<Rightarrow> (case count_clean U s of
                   Inl e \<Rightarrow> Inl e
                 | Inr n \<Rightarrow> Inr (if b then n + 1 else n)))"

definition is_valid_input :: "unicode \<Rightarrow> pyval \<Rightarrow> exn + bool" where
  "is_valid_input U word =
     (case word of
        PyStr w \<Rightarrow> if is_empty U w then Inr False else has_valid_chars U w None
      | _ \<Rightarrow> Inr False)"

definition display_char :: "unicode \<Rightarrow> recorded \<Rightarrow> pystr" where
  "display_char U r =
     (case r of (char, was_cap, is_emoji, is_allowed) \<Rightarrow>
        if is_emoji then [char]
        else if was_cap \<and> isalpha U char then upper U char
        else if isalpha U char then lower U char
        else [char])"

definition display_word_of :: "unicode \<Rightarrow> string \<Rightarrow> recorded list \<Rightarrow> pystr" where
  "display_word_of U dir chs =
     (let half_stack = chs;
          mirrored = (if length half_stack = 1 then half_stack
                      else take (2 * length half_stack - 1) (half_stack @ rev half_stack));
          display_chars = map (display_char U) mirrored
      in if dir \<in> {''ltr'', ''center-out''} then concat display_chars
         else concat (rev display_chars))"

text \<open>\<open>sep.join(parts)\<close>.\<close>

fun join :: "pystr \<Rightarrow> pystr list \<Rightarrow> pystr" where
  "join sep [] = []"
| "join sep [x] = x"
| "join sep (x # y # ys) = x @ sep @ join sep (y # ys)"

definition plural :: "int \<Rightarrow> pystr" where
  "plural n = (if n > 1 then py ''s'' else [])"

definition final_text ::
  "string \<Rightarrow> bool \<Rightarrow> bool \<Rightarrow> bool \<Rightarrow> int \<Rightarrow> int \<Rightarrow> nat \<Rightarrow> pystr" where
  "final_text dir result streaming is_valid n_diacritics n_spaces valid_count =
     (let direction_text =
            (if dir = ''ltr'' then py ''left-to-right''
             else if dir = ''rtl'' then py ''right-to-left'' else py ''center-out'');
          status =
            (if result then py ''Valid palindrome''
             else if streaming \<and> is_valid then py ''Building palindrome''
             else py ''Not a palindrome'');
          skip_info =
            (if n_diacritics > 0
             then [str_of_nat (nat n_diacritics) @ py '' diacritic'' @ plural n_diacritics]
             else []) @
            (if n_spaces > 0
             then [str_of_nat (nat n_spaces) @ py '' space'' @ plural n_spaces]
             else []);
          skip_text =
            (if skip_info \<noteq> []
             then py '' Skipped '' @ join (py '', '') skip_info @ py ''.''
             else []);
          char_text =
            (if result then py '' Valid chars: '' @ str_of_nat valid_count @ py ''.'' else [])
      in py '' :FINAL: '' @ status @
         py '' with preserved case and unique emojis built from '' @
         direction_text @ py ''!'' @ char_text @ skip_text @
         (if dir = ''center-out'' then py '' *Bazing!*'' else []))"

definition String_Output ::
  "unicode \<Rightarrow> pyval \<Rightarrow> bool \<Rightarrow> pystr option \<Rightarrow> string \<Rightarrow> recorded list \<Rightarrow> bool \<Rightarrow> int \<Rightarrow> int
     \<Rightarrow> exn + pystr" where
  "String_Output U word result err dir chs streaming n_diacritics n_spaces =
     (case is_valid_input U word of
        Inl e \<Rightarrow> Inl e
      | Inr is_valid \<Rightarrow>
          (let w = (case word of PyStr t \<Rightarrow> t | _ \<Rightarrow> []);
               display_word =
                 (if is_valid \<and> chs \<noteq> [] \<and> result then display_word_of U dir chs
                  else if is_valid \<and> \<not> result then w
                  else py ''INVALID'');
               out = py ''#'' @ display_word @ py '' is '' @
                     (if result then py ''True'' else py ''False'')
           in if err \<noteq> None \<and> err \<noteq> Some []
              then Inr (out @ py '' :FINAL: '' @ the err)
              else (case (if is_valid then count_clean U w else Inr 0) of
                      Inl e \<Rightarrow> Inl e
                    | Inr valid_count \<Rightarrow>
                        Inr (out @ final_text dir result streaming is_valid
                                     n_diacritics n_spaces valid_count))))"

section \<open>Scanning a paragraph\<close>

type_synonym run = "int \<times> int \<times> codepoint list"

text \<open>
  The first loop of \<open>find_palindromes_in_paragraph\<close>; the state is
  \<open>(valid_sequences, current_sequence, start_pos)\<close> and \<open>i\<close> is the index of the
  character at the head of the remaining text.
\<close>

fun extract_sequences ::
  "unicode \<Rightarrow> codepoint list option \<Rightarrow> int \<Rightarrow> pystr \<Rightarrow> run list \<times> codepoint list \<times> int
     \<Rightarrow> run list \<times> codepoint list \<times> int" where
  "extract_sequences U vc i [] st = st"
| "extract_sequences U vc i (char # rest) (valid_sequences, current_sequence, start_pos) =
     extract_sequences U vc (i + 1) rest
       (case clean U char vc of
          Inr True \<Rightarrow>
            (valid_sequences, current_sequence @ [char],
             if current_sequence = [] then i else start_pos)
        | Inr False \<Rightarrow>
            if current_sequence \<noteq> []
            then (valid_sequences @ [(start_pos, i - 1, current_sequence)], [], start_pos)
            else (valid_sequences, current_sequence, start_pos)
        | Inl e \<Rightarrow>
            if current_sequence \<noteq> []
            then (valid_sequences @ [(start_pos, i - 1, current_sequence)], [], start_pos)
            else (valid_sequences, current_sequence, start_pos))"

definition valid_sequences_of :: "unicode \<Rightarrow> codepoint list option \<Rightarrow> pystr \<Rightarrow> run list" where
  "valid_sequences_of U vc paragraph =
     (case extract_sequences U vc 0 paragraph ([], [], 0) of
        (valid_sequences, current_sequence, start_pos) \<Rightarrow>
          if current_sequence \<noteq> []
          then valid_sequences @ [(start_pos, int (length paragraph) - 1, current_sequence)]
          else valid_sequences)"

text \<open>
  One entry of the result list; \<open>output_line\<close> is the dictionary key \<open>"output"\<close>.
\<close>

record found =
  palindrome :: pystr
  start_pos :: int
  end_pos :: int
  output_line :: pystr

text \<open>The innermost loop: the substring is fed to the processor until a verdict is false.\<close>

fun feed_substring ::
  "unicode \<Rightarrow> codepoint list \<Rightarrow> stream_processor \<Rightarrow> recorded list
     \<Rightarrow> bool \<times> pystr option \<times> recorded list \<times> stream_processor" where
  "feed_substring U [] processor chars_out = (True, None, chars_out, processor)"
| "feed_substring U (char # rest) processor chars_out =
     (case process_char U (PyStr [char]) False processor of
        ((res, err, chs), processor') \<Rightarrow>
          if \<not> res then (False, err, [], processor')
          else feed_substring U rest processor' chs)"

text \<open>The body of the loop over \<open>j\<close>: what one pair \<open>(i, j)\<close> appends to \<open>palindromes\<close>.\<close>

definition check_substring ::
  "unicode \<Rightarrow> string \<Rightarrow> codepoint list option \<Rightarrow> int \<Rightarrow> int \<Rightarrow> codepoint list \<Rightarrow> nat \<Rightarrow> nat
     \<Rightarrow> exn + found list" where
  "check_substring U dir vc min_length start sequence i j =
     (let substring = take (j + 1 - i) (drop i sequence) in
      if int (length substring) < min_length then Inr []
      else case feed_substring U substring (StreamProcessor dir vc) [] of
        (result, err, chars_out, processor) \<Rightarrow>
          if result
          then (case String_Output U (PyStr substring) result err dir chars_out False
                       (skipped_diacritics processor) (skipped_spaces processor) of
                  Inl e \<Rightarrow> Inl e
                | Inr out \<Rightarrow>
                    Inr [\<lparr>palindrome = substring, start_pos = start + int i,
                          end_pos = start + int j, output_line = out\<rparr>])
          else Inr [])"

fun scan_pairs ::
  "unicode \<Rightarrow> string \<Rightarrow> codepoint list option \<Rightarrow> int \<Rightarrow> int \<Rightarrow> codepoint list \<Rightarrow> (nat \<times> nat) list
     \<Rightarrow> exn + found list" where
  "scan_pairs U dir vc min_length start sequence [] = Inr []"
| "scan_pairs U dir vc min_length start sequence ((i, j) # ps) =
     (case check_substring U dir vc min_length start sequence i j of
        Inl e \<Rightarrow> Inl e
      | Inr fs \<Rightarrow>
          (case scan_pairs U dir vc min_length start sequence ps of
             Inl e \<Rightarrow> Inl e
           | Inr gs \<Rightarrow> Inr (fs @ gs)))"

text \<open>\<open>for i in range(len(sequence)): for j in range(i, len(sequence))\<close>.\<close>

definition index_pairs :: "nat \<Rightarrow> (nat \<times> nat) list" where
  "index_pairs n = concat (map (\<lambda>i. map (\<lambda>j. (i, j)) [i..<n]) [0..<n])"

fun scan_sequences ::
  "unicode \<Rightarrow> string \<Rightarrow> codepoint list option \<Rightarrow> int \<Rightarrow> run list \<Rightarrow> exn + found list" where
  "scan_sequences U dir vc min_length [] = Inr []"
| "scan_sequences U dir vc min_length ((start, stop, sequence) # rest) =
     (case scan_pairs U dir vc min_length start sequence (index_pairs (length sequence)) of
        Inl e \<Rightarrow> Inl e
      | Inr fs \<Rightarrow>
          (case scan_sequences U dir vc min_length rest of
             Inl e \<Rightarrow> Inl e
           | Inr gs \<Rightarrow> Inr (fs @ gs)))"

text \<open>
  The test \<open>is_null(paragraph) or not isinstance(paragraph, str)\<close> is the case distinction
  on the argument. \<open>String_Output\<close> can raise (it calls \<open>clean\<close> without the alphabet), and
  an exception leaves the function with nothing returned.
\<close>

definition find_palindromes_in_paragraph ::
  "unicode \<Rightarrow> pyval \<Rightarrow> string \<Rightarrow> codepoint list option \<Rightarrow> int \<Rightarrow> exn + found list" where
  "find_palindromes_in_paragraph U paragraph dir vc min_length =
     (case paragraph of
        PyStr text \<Rightarrow>
          if is_empty U text then Inr []
          else scan_sequences U dir vc min_length (valid_sequences_of U vc text)
      | _ \<Rightarrow> Inl (InvalidInputError (py ''Paragraph must be a non-null string'')))"

section \<open>A fragment of the Unicode database\<close>

text \<open>
  The entries of Python's tables for the code points of the scenarios below: the ASCII
  range, the block of combining diacritical marks (U+0300 to U+036F, all of category Mn)
  and the emoji of the allow-list, which are neither letters nor whitespace, have no case
  and are their own NFC form. \<open>hash\<close> of a string is only known to give equal results on
  equal strings; the sum of the code points stands for it.
\<close>

definition ascii_unicode :: unicode where
  "ascii_unicode =
     \<lparr>isalpha = (\<lambda>c. (65 \<le> c \<and> c \<le> 90) \<or> (97 \<le> c \<and> c \<le> 122)),
      isspace = (\<lambda>c. (9 \<le> c \<and> c \<le> 13) \<or> (28 \<le> c \<and> c \<le> 32)),
      isupper = (\<lambda>c. 65 \<le> c \<and> c \<le> 90),
      lower = (\<lambda>c. if 65 \<le> c \<and> c \<le> 90 then [c + 32] else [c]),
      upper = (\<lambda>c. if 97 \<le> c \<and> c \<le> 122 then [c - 32] else [c]),
      category_Mn = (\<lambda>c. 768 \<le> c \<and> c \<le> 879),
      normalize_NFC = (\<lambda>s. s),
      hash_str = (\<lambda>s. int (sum_list s))\<rparr>"

text \<open>A processor that has stopped: the state after \<open>process_char(None)\<close>.\<close>

definition stopped_example :: stream_processor where
  "stopped_example = snd (process_char ascii_unicode PyNone False (StreamProcessor ''ltr'' None))"

section \<open>Notions for the claims about streams\<close>

text \<open>
  \<open>bump k\<close> adds \<open>k\<close> to the counter of skipped diacritics. A processor is in order when it
  has not stopped and \<open>clean\<close> accepts every character of its buffer. A combining mark is a
  character of category Mn; Python's \<open>isspace\<close> holds for no such character, which the
  Unicode table given as a parameter has to say. The other three definitions name the parts of
  \<open>process_char\<close> on an accepted character: the start positions of the cursors, the run of
  the loop over the extended buffer, and what is returned and stored after the loop.
\<close>

definition bump :: "int \<Rightarrow> stream_processor \<Rightarrow> stream_processor" where
  "bump k s = s\<lparr>skipped_diacritics := skipped_diacritics s + k\<rparr>"

definition engine_ok :: "unicode \<Rightarrow> stream_processor \<Rightarrow> bool" where
  "engine_ok U s = (\<not> stopped s \<and> (\<forall>c \<in> set (buffer s). clean U c (valid_chars s) = Inr True))"

definition is_mark :: "unicode \<Rightarrow> codepoint \<Rightarrow> bool" where
  "is_mark U m = (category_Mn U m \<and> \<not> isspace U m)"

definition start_positions :: "string \<Rightarrow> int \<Rightarrow> int \<times> int" where
  "start_positions d n =
     (if d = ''center-out'' then (n div 2 - n div 2, n div 2 + n div 2)
      else if d = ''ltr'' then (0, n - 1) else (n - 1, 0))"

definition conclude ::
  "loop_exit \<times> cursor \<times> cursor \<times> cache \<Rightarrow> stream_processor \<Rightarrow> verdict \<times> stream_processor" where
  "conclude res s2 =
     (case res of
        (Raised e, l, r, hc) \<Rightarrow>
          on_UnallowedCharacterError e (s2\<lparr>left := Some l, right := Some r, hash_cache := hc\<rparr>)
      | (Mismatch, l, r, hc) \<Rightarrow>
          ((False, error_msg s2, []),
           s2\<lparr>left := Some l, right := Some r, hash_cache := hc, valid := False\<rparr>)
      | (Exited, l, r, hc) \<Rightarrow>
          ((cvalid l \<and> cvalid r, None, if cvalid l \<and> cvalid r then chars l else []),
           s2\<lparr>left := Some l, right := Some r, hash_cache := hc, valid := (cvalid l \<and> cvalid r),
              error_msg := None\<rparr>))"

definition window :: "unicode \<Rightarrow> codepoint \<Rightarrow> stream_processor \<Rightarrow> loop_exit \<times> cursor \<times> cursor \<times> cache" where
  "window U c s =
     (let n = int (length (buffer s)) + 1 in
      validate_loop U (buffer s @ [c]) (direction s)
        (Left_init (fst (start_positions (direction s) n)) (direction s) (valid_chars s))
        (Right_init (snd (start_positions (direction s) n)) (direction s) (valid_chars s))
        (hash_cache s))"

section \<open>Runs of accepted characters\<close>

text \<open>
  What the first loop of the scanner maintains. A run \<open>(start, end, sequence)\<close> is in
  order for a text when \<open>sequence\<close> is the slice of the text from \<open>start\<close> to \<open>end\<close>,
  is not empty and holds only characters for which \<open>clean\<close> returns true; the current
  sequence is in order when, if it is not empty, it is the end of the text read so far.
  A result lies within a run when it is the slice \<open>[i, j]\<close> of the run's sequence.
\<close>

definition run_ok :: "unicode \<Rightarrow> codepoint list option \<Rightarrow> pystr \<Rightarrow> run \<Rightarrow> bool" where
  "run_ok U vc text r =
     (case r of (st, en, seq) \<Rightarrow>
        0 \<le> st \<and> seq \<noteq> [] \<and> en = st + int (length seq) - 1 \<and> en < int (length text)
        \<and> seq = take (length seq) (drop (nat st) text)
        \<and> (\<forall>c \<in> set seq. clean U c vc = Inr True))"



text \<open>The text of the batch scenario.\<close>

definition panama :: pystr where
  "panama = py ''A man, a plan, a canal -- Panama''"

section \<open>Evaluation\<close>

lemma py_simp: "py (c # cs) = of_char c # py cs" "py [] = []"
  by (simp_all add: py_def)

lemmas eval_defs = process_char_def StreamProcessor_def Let_def clean_def is_emoticon_def
  ascii_unicode_def Left_get_hash_def Right_get_hash_def Left_advance_def Right_advance_def
  Left_init_def Right_init_def hash_char_def cached_def set_char_def chars_of_def py_simp
  ALLOWED_EMOJIS_def reset_def on_UnallowedCharacterError_def

lemmas render_defs = String_Output_def is_valid_input_def is_empty_def str_isspace_def
  display_word_of_def display_char_def final_text_def plural_def str_of_nat.simps
  ascii_unicode_def clean_def is_emoticon_def ALLOWED_EMOJIS_def Let_def py_simp

lemmas scan_defs = find_palindromes_in_paragraph_def valid_sequences_of_def check_substring_def
  index_pairs_def is_empty_def str_isspace_def

lemma upt_eval: "[i..<j] = (if i < j then i # [Suc i..<j] else [])"
  by (simp add: upt_rec)

lemma clean_True_not_skipped:
  "clean U c vc = Inr True \<Longrightarrow> \<not> isspace U c \<and> \<not> category_Mn U c"
  by (auto simp: clean_def split: if_splits)

section \<open>The stopped state\<close>

lemma reset_fresh: "reset s = StreamProcessor (direction s) (valid_chars s)"
  by (cases s) (simp add: reset_def StreamProcessor_def)

lemma stopped_process_char:
  "stopped s \<Longrightarrow> process_char U char False s = ((False, error_msg s, []), s)"
  by (simp add: process_char_def)

lemma stopped_feed:
  "stopped s \<Longrightarrow> feed U cs False s = (replicate (length cs) (False, error_msg s, []), s)"
  by (induction cs) (simp_all add: stopped_process_char)

text \<open>
  C8. Once the processor is stopped, \<open>process_char\<close> with \<open>auto_reset\<close> false returns
  \<open>(False, error_msg, [])\<close> with the stored error and leaves the whole state as it was, for
  one call and for any number of calls in a row; \<open>reset\<close> gives back the state of a newly
  constructed processor with the same direction and alphabet, which is not stopped.
\<close>

theorem stopped_latching:
  assumes "stopped s"
  shows "process_char U char False s = ((False, error_msg s, []), s)
       \<and> feed U cs False s = (replicate (length cs) (False, error_msg s, []), s)
       \<and> reset s = StreamProcessor (direction s) (valid_chars s)
       \<and> \<not> stopped (reset s)"
  using assms by (simp add: stopped_process_char stopped_feed reset_fresh StreamProcessor_def)

theorem stopped_latching_witness:
  "stopped stopped_example
   \<and> error_msg stopped_example = Some (py ''Input Error: Invalid character'')
   \<and> process_char ascii_unicode (PyStr (py ''a'')) False stopped_example
       = ((False, Some (py ''Input Error: Invalid character''), []), stopped_example)
   \<and> feed ascii_unicode (chars_of (py ''ab'')) False stopped_example
       = ([(False, Some (py ''Input Error: Invalid character''), []),
           (False, Some (py ''Input Error: Invalid character''), [])], stopped_example)
   \<and> reset stopped_example = StreamProcessor ''ltr'' None"
proof -
  have h: "stopped stopped_example"
    by (simp add: stopped_example_def process_char_def StreamProcessor_def Let_def)
  have e: "error_msg stopped_example = Some (py ''Input Error: Invalid character'')"
    by (simp add: stopped_example_def process_char_def StreamProcessor_def Let_def)
  have d: "direction stopped_example = ''ltr''" "valid_chars stopped_example = None"
    by (simp_all add: stopped_example_def process_char_def StreamProcessor_def Let_def)
  show ?thesis
    using h e d stopped_latching [OF h, of ascii_unicode "PyStr (py ''a'')" "chars_of (py ''ab'')"]
    by (simp add: chars_of_def py_simp stopped_process_char [OF h])
qed

section \<open>Input validation of the scanner\<close>

text \<open>
  C7. \<open>find_palindromes_in_paragraph\<close> raises \<open>InvalidInputError\<close> for \<open>None\<close> and for
  every argument that is not a string, and returns the empty list, without raising, for
  the empty string and for every string of whitespace only.
\<close>

theorem scanner_input_validation:
  "((\<forall>t. paragraph \<noteq> PyStr t) \<longrightarrow>
      find_palindromes_in_paragraph U paragraph dir vc min_length
        = Inl (InvalidInputError (py ''Paragraph must be a non-null string'')))
   \<and> (text = [] \<or> str_isspace U text \<longrightarrow>
      find_palindromes_in_paragraph U (PyStr text) dir vc min_length = Inr [])"
  by (cases "paragraph") (auto simp: find_palindromes_in_paragraph_def is_empty_def)

theorem scanner_input_validation_witness:
  "find_palindromes_in_paragraph ascii_unicode PyNone ''ltr'' None 2
     = Inl (InvalidInputError (py ''Paragraph must be a non-null string''))
   \<and> find_palindromes_in_paragraph ascii_unicode (PyInt 42) ''ltr'' None 2
     = Inl (InvalidInputError (py ''Paragraph must be a non-null string''))
   \<and> find_palindromes_in_paragraph ascii_unicode (PyStr []) ''ltr'' None 2 = Inr []
   \<and> str_isspace ascii_unicode [32, 9, 10]
   \<and> find_palindromes_in_paragraph ascii_unicode (PyStr [32, 9, 10]) ''ltr'' None 2 = Inr []"
proof -
  have sp: "str_isspace ascii_unicode [32, 9, 10]"
    by (simp add: str_isspace_def ascii_unicode_def)
  show ?thesis
    using sp
      scanner_input_validation [of PyNone ascii_unicode "''ltr''" None 2 "[]"]
      scanner_input_validation [of "PyInt 42" ascii_unicode "''ltr''" None 2 "[32, 9, 10]"]
    by simp
qed

section \<open>Windows of one character\<close>

text \<open>
  For every character that \<open>clean\<close> accepts, \<open>process_char\<close> on a new processor (any
  direction) returns the verdict true, no error and an empty list of recorded characters:
  \<open>Left.get_hash\<close> records a character only when it is compared, and in a window of one
  character both cursors start on it, so the loop body never runs.
\<close>

lemma single_character_result:
  assumes "clean U c vc = Inr True"
  shows "fst (process_char U (PyStr [c]) auto_reset (StreamProcessor d vc)) = (True, None, [])"
  using assms clean_True_not_skipped [OF assms]
  by (simp add: process_char_def StreamProcessor_def Let_def Left_init_def Right_init_def
        validate_loop.simps)

text \<open>
  C4 at the input \<open>a\<close>: the letter is accepted and \<open>process_char\<close> on a new processor
  returns the verdict true with an empty list of recorded characters, not a list of length
  1. \<open>String_Output\<close>, called as \<open>stream_palindrome\<close> calls it, then shows this window as
  \<open>#INVALID is True\<close>; with the one recorded tuple it would show \<open>#a is True\<close>.
\<close>

theorem single_character_recorded_empty:
  "clean ascii_unicode 97 None = Inr True
   \<and> fst (process_char ascii_unicode (PyStr (py ''a'')) False (StreamProcessor ''ltr'' None))
       = (True, None, [])
   \<and> String_Output ascii_unicode (PyStr (py ''a'')) True None ''ltr'' [] True 0 0
       = Inr (py ''#INVALID is True :FINAL: Valid palindrome with preserved case and unique emojis built from left-to-right! Valid chars: 1.'')
   \<and> String_Output ascii_unicode (PyStr (py ''a'')) True None ''ltr'' [(97, False, False, True)]
         True 0 0
       = Inr (py ''#a is True :FINAL: Valid palindrome with preserved case and unique emojis built from left-to-right! Valid chars: 1.'')"
proof (intro conjI)
  show "clean ascii_unicode 97 None = Inr True"
    by (simp add: clean_def ascii_unicode_def)
  show "fst (process_char ascii_unicode (PyStr (py ''a'')) False (StreamProcessor ''ltr'' None))
       = (True, None, [])"
    by (simp add: eval_defs validate_loop.simps)
  show "String_Output ascii_unicode (PyStr (py ''a'')) True None ''ltr'' [] True 0 0
       = Inr (py ''#INVALID is True :FINAL: Valid palindrome with preserved case and unique emojis built from left-to-right! Valid chars: 1.'')"
    by (simp add: render_defs)
  show "String_Output ascii_unicode (PyStr (py ''a'')) True None ''ltr'' [(97, False, False, True)]
         True 0 0
       = Inr (py ''#a is True :FINAL: Valid palindrome with preserved case and unique emojis built from left-to-right! Valid chars: 1.'')"
    by (simp add: render_defs)
qed

section \<open>The three directions\<close>

text \<open>
  C1 at the input \<open>aa\<close>: fed left to right the final verdict is true; its reverse (again
  \<open>aa\<close>) fed to a new processor with direction \<open>rtl\<close> gives the final verdict false.
  \<open>Right.advance\<close> subtracts 1 in every direction, so the right cursor, which starts at
  index 0 under \<open>rtl\<close>, leaves the buffer after the first comparison.
\<close>

theorem direction_symmetry_fails:
  "fst (last (fst (feed ascii_unicode (chars_of (py ''aa'')) False (StreamProcessor ''ltr'' None))))
     = True
   \<and> fst (last (fst (feed ascii_unicode (chars_of (rev (py ''aa''))) False
        (StreamProcessor ''rtl'' None)))) = False"
  by (simp add: eval_defs validate_loop.simps)

text \<open>
  C2 at the input \<open>aa\<close>: after the second character the verdict is true under \<open>ltr\<close> and
  false under \<open>center-out\<close>, where the right cursor starts at \<open>center + len // 2\<close>, which
  is the length of the buffer when the length is even.
\<close>

theorem center_out_differs_from_ltr:
  "map fst (fst (feed ascii_unicode (chars_of (py ''aa'')) False (StreamProcessor ''ltr'' None)))
     = [True, True]
   \<and> map fst (fst (feed ascii_unicode (chars_of (py ''aa'')) False
        (StreamProcessor ''center-out'' None))) = [True, False]"
  by (simp add: eval_defs validate_loop.simps)

section \<open>Rendering a verdict\<close>

text \<open>
  C5 at the input \<open>Level\<close>: the stream ends with the verdict true and the recorded
  characters \<open>L\<close> (upper case) and \<open>e\<close>; \<open>String_Output\<close> shows the word \<open>Lee\<close>, not
  \<open>Level\<close>.
\<close>

theorem renderer_level:
  "last (fst (feed ascii_unicode (chars_of (py ''Level'')) False (StreamProcessor ''ltr'' None)))
     = (True, None, [(76, True, False, True), (101, False, False, True)])
   \<and> String_Output ascii_unicode (PyStr (py ''Level'')) True None ''ltr''
        [(76, True, False, True), (101, False, False, True)] False 0 0
     = Inr (py ''#Lee is True :FINAL: Valid palindrome with preserved case and unique emojis built from left-to-right! Valid chars: 5.'')"
proof
  show "last (fst (feed ascii_unicode (chars_of (py ''Level'')) False (StreamProcessor ''ltr'' None)))
     = (True, None, [(76, True, False, True), (101, False, False, True)])"
    by (simp add: eval_defs validate_loop.simps)
  show "String_Output ascii_unicode (PyStr (py ''Level'')) True None ''ltr''
        [(76, True, False, True), (101, False, False, True)] False 0 0
     = Inr (py ''#Lee is True :FINAL: Valid palindrome with preserved case and unique emojis built from left-to-right! Valid chars: 5.'')"
    by (simp add: render_defs)
qed

section \<open>Emoji with a skin tone\<close>

text \<open>
  C6 at the five variants of the thumbs-up glyph with a skin tone. Each of them is in
  \<open>ALLOWED_EMOJIS\<close>, but is a string of two code points. Given as one character,
  \<open>process_char\<close> answers \<open>Input Error: Invalid character\<close> with the verdict false and the
  processor is stopped, whatever the Unicode table, direction and alphabet. Given one code
  point at a time, the glyph U+1F44D is accepted, the modifier alone is not in the list:
  \<open>clean\<close> raises, the verdict is false with a \<open>Character Error\<close> and the processor is
  stopped. Only the glyph without a tone, fed twice, gives the verdict true.
\<close>

theorem thumbs_up_variants:
  "map (\<lambda>tone. [128077, tone] \<in> set ALLOWED_EMOJIS) [127995, 127996, 127997, 127998, 127999]
       = [True, True, True, True, True]
   \<and> fst (feed U [PyStr [128077, tone], PyStr [128077, tone]] False (StreamProcessor d vc))
       = [(False, Some (py ''Input Error: Invalid character''), []),
          (False, Some (py ''Input Error: Invalid character''), [])]
   \<and> stopped (snd (feed U [PyStr [128077, tone], PyStr [128077, tone]] False
         (StreamProcessor d vc)))
   \<and> fst (feed ascii_unicode (chars_of [128077, 127995, 128077, 127995]) False
         (StreamProcessor ''ltr'' None))
       = [(True, None, []),
          (False, Some (py ''Character Error: Unallowed character '' @ [39, 127995, 39]), []),
          (False, Some (py ''Character Error: Unallowed character '' @ [39, 127995, 39]), []),
          (False, Some (py ''Character Error: Unallowed character '' @ [39, 127995, 39]), [])]
   \<and> stopped (snd (feed ascii_unicode (chars_of [128077, 127995, 128077, 127995]) False
         (StreamProcessor ''ltr'' None)))
   \<and> fst (last (fst (feed ascii_unicode [PyStr [128077], PyStr [128077]] False
         (StreamProcessor ''ltr'' None)))) = True"
proof (intro conjI)
  show "map (\<lambda>tone. [128077, tone] \<in> set ALLOWED_EMOJIS) [127995, 127996, 127997, 127998, 127999]
       = [True, True, True, True, True]"
    by (simp add: ALLOWED_EMOJIS_def)
  show "fst (feed U [PyStr [128077, tone], PyStr [128077, tone]] False (StreamProcessor d vc))
       = [(False, Some (py ''Input Error: Invalid character''), []),
          (False, Some (py ''Input Error: Invalid character''), [])]"
    by (simp add: process_char_def StreamProcessor_def Let_def)
  show "stopped (snd (feed U [PyStr [128077, tone], PyStr [128077, tone]] False
         (StreamProcessor d vc)))"
    by (simp add: process_char_def StreamProcessor_def Let_def)
  show "fst (feed ascii_unicode (chars_of [128077, 127995, 128077, 127995]) False
         (StreamProcessor ''ltr'' None))
       = [(True, None, []),
          (False, Some (py ''Character Error: Unallowed character '' @ [39, 127995, 39]), []),
          (False, Some (py ''Character Error: Unallowed character '' @ [39, 127995, 39]), []),
          (False, Some (py ''Character Error: Unallowed character '' @ [39, 127995, 39]), [])]"
    by (simp add: eval_defs validate_loop.simps)
  show "stopped (snd (feed ascii_unicode (chars_of [128077, 127995, 128077, 127995]) False
         (StreamProcessor ''ltr'' None)))"
    by (simp add: eval_defs validate_loop.simps)
  show "fst (last (fst (feed ascii_unicode [PyStr [128077], PyStr [128077]] False
         (StreamProcessor ''ltr'' None)))) = True"
    by (simp add: eval_defs validate_loop.simps)
qed

section \<open>The runs of the scanner\<close>


lemma run_ok_extend: "run_ok U vc (pre @ c # rest) r \<Longrightarrow> run_ok U vc ((pre @ [c]) @ rest) r"
  by simp
















section \<open>The batch scenario\<close>

text \<open>
  C3 at its input. The text \<open>A man, a plan, a canal -- Panama\<close> is split at every space
  and punctuation mark into the runs \<open>A\<close>, \<open>man\<close>, \<open>a\<close>, \<open>plan\<close>, \<open>a\<close>, \<open>canal\<close>,
  \<open>Panama\<close>, and with direction \<open>ltr\<close> and minimum length 2 the scanner returns the empty
  list: nothing is found, and no sequence \<open>amanaplanacanalpanama\<close>. The processor itself,
  fed that sequence of letters, ends with the verdict true. The inner loop of the scanner
  gives a substring up at the first prefix whose verdict is false, so that even the text
  \<open>ere\<close>, which is one run and a palindrome, gives the empty list.
\<close>

theorem panama_scan_finds_nothing:
  "valid_sequences_of ascii_unicode None panama =
     [(0, 0, py ''A''), (2, 4, py ''man''), (7, 7, py ''a''), (9, 12, py ''plan''),
      (15, 15, py ''a''), (17, 21, py ''canal''), (26, 31, py ''Panama'')]
   \<and> find_palindromes_in_paragraph ascii_unicode (PyStr panama) ''ltr'' None 2 = Inr []
   \<and> fst (last (fst (feed ascii_unicode (chars_of (py ''amanaplanacanalpanama'')) False
         (StreamProcessor ''ltr'' None)))) = True
   \<and> valid_sequences_of ascii_unicode None (py ''ere'') = [(0, 2, py ''ere'')]
   \<and> find_palindromes_in_paragraph ascii_unicode (PyStr (py ''ere'')) ''ltr'' None 2 = Inr []"
proof (intro conjI)
  show "valid_sequences_of ascii_unicode None panama =
     [(0, 0, py ''A''), (2, 4, py ''man''), (7, 7, py ''a''), (9, 12, py ''plan''),
      (15, 15, py ''a''), (17, 21, py ''canal''), (26, 31, py ''Panama'')]"
    by (simp add: panama_def valid_sequences_of_def clean_def is_emoticon_def ascii_unicode_def
          ALLOWED_EMOJIS_def py_simp)
  show "find_palindromes_in_paragraph ascii_unicode (PyStr panama) ''ltr'' None 2 = Inr []"
    by (simp add: panama_def scan_defs eval_defs render_defs validate_loop.simps upt_eval)
  show "fst (last (fst (feed ascii_unicode (chars_of (py ''amanaplanacanalpanama'')) False
         (StreamProcessor ''ltr'' None)))) = True"
    by (simp add: eval_defs validate_loop.simps)
  show "valid_sequences_of ascii_unicode None (py ''ere'') = [(0, 2, py ''ere'')]"
    by (simp add: valid_sequences_of_def clean_def is_emoticon_def ascii_unicode_def
          ALLOWED_EMOJIS_def py_simp)
  show "find_palindromes_in_paragraph ascii_unicode (PyStr (py ''ere'')) ''ltr'' None 2 = Inr []"
    by (simp add: scan_defs eval_defs render_defs validate_loop.simps upt_eval)
qed

section \<open>Combining marks in a stream\<close>

lemma Left_get_hash_no_raise:
  assumes "\<forall>c \<in> set buf. \<forall>e. clean U c (cvalid_chars l) \<noteq> Inl e"
  shows "fst (Left_get_hash U buf hc l) \<noteq> Inl e"
    and "cvalid_chars (fst (snd (Left_get_hash U buf hc l))) = cvalid_chars l"
  using assms
  by (auto simp: Left_get_hash_def Let_def set_char_def split: sum.splits bool.splits prod.splits)

lemma Right_get_hash_no_raise:
  assumes "\<forall>c \<in> set buf. \<forall>e. clean U c (cvalid_chars r) \<noteq> Inl e"
  shows "fst (Right_get_hash U buf hc r) \<noteq> Inl e"
    and "cvalid_chars (fst (snd (Right_get_hash U buf hc r))) = cvalid_chars r"
  using assms
  by (auto simp: Right_get_hash_def Let_def split: sum.splits bool.splits prod.splits)

lemma advance_valid_chars:
  "cvalid_chars (Left_advance buf l) = cvalid_chars l"
  "cvalid_chars (Right_advance buf r) = cvalid_chars r"
  by (simp_all add: Left_advance_def Right_advance_def Let_def)

lemma validate_loop_no_raise:
  assumes "\<forall>c \<in> set buf. \<forall>e. clean U c vc \<noteq> Inl e" "cvalid_chars l = vc" "cvalid_chars r = vc"
  shows "fst (validate_loop U buf dir l r hc) \<noteq> Raised e"
  using assms
proof (induction U buf dir l r hc rule: validate_loop.induct)
  case (1 U buf dir l r hc)
  obtain lh l' hc' where L: "Left_get_hash U buf hc l = (lh, l', hc')"
    by (cases "Left_get_hash U buf hc l") auto
  obtain rh r' hc'' where R: "Right_get_hash U buf hc' r = (rh, r', hc'')"
    by (cases "Right_get_hash U buf hc' r") auto
  from Left_get_hash_no_raise [where buf=buf and U=U and l=l and hc=hc] 1(2,3) L
  have l: "\<forall>e. lh \<noteq> Inl e" "cvalid_chars l' = vc" by auto
  from Right_get_hash_no_raise [where buf=buf and U=U and r=r and hc=hc'] 1(2,4) R
  have r: "\<forall>e. rh \<noteq> Inl e" "cvalid_chars r' = vc" by auto
  show ?case
  proof (cases "cvalid l \<and> cvalid r \<and>
         ((dir \<in> {''ltr'', ''center-out''} \<and> pos l < pos r) \<or> (dir = ''rtl'' \<and> pos l > pos r))")
    case False
    then show ?thesis by (subst validate_loop.simps) auto
  next
    case True
    from l(1) obtain left_hash where lh: "lh = Inr left_hash" by (cases lh) auto
    from r(1) obtain right_hash where rh: "rh = Inr right_hash" by (cases rh) auto
    show ?thesis
    proof (cases "left_hash = None \<or> right_hash = None \<or> left_hash \<noteq> right_hash")
      case mismatch: True
      then show ?thesis using True L R lh rh by (subst validate_loop.simps) auto
    next
      case nomismatch: False
      have "fst (validate_loop U buf dir (Left_advance buf l') (Right_advance buf r') hc'') \<noteq> Raised e"
        using "1.IH" [OF True L [symmetric] lh refl R [symmetric] rh refl nomismatch 1(2)]
          l(2) r(2) by (simp add: advance_valid_chars)
      then show ?thesis using True L R lh rh nomismatch by (subst validate_loop.simps) auto
    qed
  qed
qed

lemma process_char_mark:
  assumes "\<not> stopped s" "is_mark U m"
  shows "process_char U (PyStr [m]) False s = ((False, None, []), bump 1 s)"
  using assms by (simp add: process_char_def is_mark_def bump_def)

lemma process_char_accepted:
  assumes "\<not> stopped s" "clean U c (valid_chars s) = Inr True"
  shows "process_char U (PyStr [c]) False s =
           conclude (window U c s)
             (s\<lparr>buffer := buffer s @ [c],
                center := (if direction s = ''center-out''
                           then (int (length (buffer s)) + 1) div 2 else center s)\<rparr>)"
proof -
  have ns: "\<not> isspace U c" "\<not> category_Mn U c"
    using assms clean_True_not_skipped by auto
  consider "direction s = ''center-out''" | "direction s = ''ltr''"
    | "direction s \<noteq> ''center-out''" "direction s \<noteq> ''ltr''" by blast
  then show ?thesis
  proof cases
    case 1
    then show ?thesis using assms ns
      by (simp add: process_char_def Let_def conclude_def window_def start_positions_def
            add.commute split: prod.splits loop_exit.splits)
  next
    case 2
    then show ?thesis using assms ns
      by (simp add: process_char_def Let_def conclude_def window_def start_positions_def
            add.commute split: prod.splits loop_exit.splits)
  next
    case 3
    then show ?thesis using assms ns
      by (simp add: process_char_def Let_def conclude_def window_def start_positions_def
            add.commute split: prod.splits loop_exit.splits)
  qed
qed


lemma window_no_raise:
  assumes "engine_ok U s" "clean U c (valid_chars s) = Inr True"
  shows "fst (window U c s) \<noteq> Raised e"
proof -
  have b: "\<forall>x \<in> set (buffer s @ [c]). \<forall>e. clean U x (valid_chars s) \<noteq> Inl e"
    using assms by (auto simp: engine_ok_def)
  show ?thesis unfolding window_def Let_def
    by (rule validate_loop_no_raise [OF b]) (simp_all add: Left_init_def Right_init_def)
qed

lemma conclude_fields:
  assumes "\<forall>e. fst res \<noteq> Raised e"
  shows "stopped (snd (conclude res s2)) = stopped s2"
    and "buffer (snd (conclude res s2)) = buffer s2"
    and "valid_chars (snd (conclude res s2)) = valid_chars s2"
    and "direction (snd (conclude res s2)) = direction s2"
    and "skipped_diacritics (snd (conclude res s2)) = skipped_diacritics s2"
  using assms
  by (cases res; cases "fst res"; simp add: conclude_def)+

lemma process_char_accepted_ok:
  assumes "engine_ok U s" "clean U c (valid_chars s) = Inr True"
  shows "engine_ok U (snd (process_char U (PyStr [c]) False s))"
    and "valid_chars (snd (process_char U (PyStr [c]) False s)) = valid_chars s"
    and "skipped_diacritics (snd (process_char U (PyStr [c]) False s)) = skipped_diacritics s"
proof -
  have ns: "\<not> stopped s" using assms by (simp add: engine_ok_def)
  have nr: "\<forall>e. fst (window U c s) \<noteq> Raised e"
    using window_no_raise [OF assms] by blast
  note pc = process_char_accepted [OF ns assms(2)]
  show "engine_ok U (snd (process_char U (PyStr [c]) False s))"
    using assms unfolding pc engine_ok_def by (simp add: conclude_fields [OF nr])
  show "valid_chars (snd (process_char U (PyStr [c]) False s)) = valid_chars s"
    unfolding pc by (simp add: conclude_fields [OF nr])
  show "skipped_diacritics (snd (process_char U (PyStr [c]) False s)) = skipped_diacritics s"
    unfolding pc by (simp add: conclude_fields [OF nr])
qed

lemma process_char_mark_ok:
  assumes "engine_ok U s" "is_mark U m"
  shows "engine_ok U (snd (process_char U (PyStr [m]) False s))"
    and "valid_chars (snd (process_char U (PyStr [m]) False s)) = valid_chars s"
  using assms by (simp_all add: process_char_mark engine_ok_def bump_def)

lemma conclude_bump:
  "conclude res (bump k s2) = (fst (conclude res s2), bump k (snd (conclude res s2)))"
  by (cases res; cases "fst res")
     (simp_all add: conclude_def bump_def on_UnallowedCharacterError_def Let_def)

lemma window_bump: "window U c (bump k s) = window U c s"
  by (simp add: window_def bump_def)

lemma process_char_bump:
  "process_char U ch False (bump k s)
     = (fst (process_char U ch False s), bump k (snd (process_char U ch False s)))"
proof (cases "stopped s")
  case True
  then show ?thesis by (simp add: process_char_def bump_def)
next
  case ns: False
  then have nsb: "\<not> stopped (bump k s)" by (simp add: bump_def)
  show ?thesis
  proof (cases "\<exists>c. ch = PyStr [c] \<and> clean U c (valid_chars s) = Inr True")
    case True
    then obtain c where c: "ch = PyStr [c]" "clean U c (valid_chars s) = Inr True" by blast
    then have cb: "clean U c (valid_chars (bump k s)) = Inr True" by (simp add: bump_def)
    have "(bump k s)\<lparr>buffer := buffer (bump k s) @ [c],
                center := (if direction (bump k s) = ''center-out''
                           then (int (length (buffer (bump k s))) + 1) div 2 else center (bump k s))\<rparr>
          = bump k (s\<lparr>buffer := buffer s @ [c],
                center := (if direction s = ''center-out''
                           then (int (length (buffer s)) + 1) div 2 else center s)\<rparr>)"
      by (simp add: bump_def)
    then show ?thesis
      unfolding c(1) process_char_accepted [OF ns c(2)] process_char_accepted [OF nsb cb]
      by (simp add: conclude_bump window_bump)
  next
    case False
    then show ?thesis using ns
      by (auto simp: process_char_def bump_def Let_def on_UnallowedCharacterError_def
            split: pyval.splits list.splits sum.splits bool.splits)
  qed
qed

lemma feed_Cons:
  "feed U (ch # cs) ar s =
     (fst (process_char U ch ar s) # fst (feed U cs ar (snd (process_char U ch ar s))),
      snd (feed U cs ar (snd (process_char U ch ar s))))"
  by (simp split: prod.splits)

lemma feed_bump:
  "feed U cs False (bump k s) = (fst (feed U cs False s), bump k (snd (feed U cs False s)))"
proof (induction cs arbitrary: s)
  case Nil
  then show ?case by simp
next
  case (Cons ch cs)
  show ?case
    by (simp only: feed_Cons process_char_bump Cons.IH fst_conv snd_conv)
qed

lemma feed_append:
  "feed U (xs @ ys) ar s =
     (fst (feed U xs ar s) @ fst (feed U ys ar (snd (feed U xs ar s))),
      snd (feed U ys ar (snd (feed U xs ar s))))"
proof (induction xs arbitrary: s)
  case Nil
  then show ?case by simp
next
  case (Cons x xs)
  show ?case
    by (simp only: append_Cons feed_Cons Cons.IH fst_conv snd_conv)
qed

lemma length_feed: "length (fst (feed U cs ar s)) = length cs"
proof (induction cs arbitrary: s)
  case Nil
  then show ?case by simp
next
  case (Cons c cs)
  show ?case by (simp only: feed_Cons fst_conv Cons.IH list.size)
qed

lemma feed_ok:
  assumes "engine_ok U s" "\<forall>c \<in> set S. clean U c (valid_chars s) = Inr True \<or> is_mark U c"
  shows "engine_ok U (snd (feed U (chars_of S) False s))"
  using assms
proof (induction S arbitrary: s)
  case Nil
  then show ?case by (simp add: chars_of_def)
next
  case (Cons c S)
  let ?s' = "snd (process_char U (PyStr [c]) False s)"
  have "engine_ok U ?s' \<and> valid_chars ?s' = valid_chars s"
    using Cons.prems process_char_accepted_ok(1,2) process_char_mark_ok by auto
  then have "engine_ok U (snd (feed U (chars_of S) False ?s'))"
    using Cons.IH [of ?s'] Cons.prems(2) by simp
  then show ?case by (simp only: chars_of_def list.map feed_Cons snd_conv)
qed

lemma chars_of_append: "chars_of (xs @ ys) = chars_of xs @ chars_of ys"
  by (simp add: chars_of_def)

lemma chars_of_Cons: "chars_of (c # cs) = PyStr [c] # chars_of cs"
  by (simp add: chars_of_def)

lemma engine_ok_new: "engine_ok U (StreamProcessor d vc)"
  by (simp add: engine_ok_def StreamProcessor_def)

lemma mark_inserted:
  assumes "\<forall>c \<in> set S. clean U c vc = Inr True \<or> is_mark U c"
    and "is_mark U m"
  shows "feed U (chars_of (take i S @ m # drop i S)) False (StreamProcessor d vc)
         = (fst (feed U (chars_of (take i S)) False (StreamProcessor d vc))
              @ (False, None, [])
              # fst (feed U (chars_of (drop i S)) False
                     (snd (feed U (chars_of (take i S)) False (StreamProcessor d vc)))),
            bump 1 (snd (feed U (chars_of S) False (StreamProcessor d vc))))"
proof -
  let ?s0 = "StreamProcessor d vc"
  let ?s1 = "snd (feed U (chars_of (take i S)) False ?s0)"
  have vc0: "valid_chars ?s0 = vc" by (simp add: StreamProcessor_def)
  have "\<forall>c \<in> set (take i S). clean U c (valid_chars ?s0) = Inr True \<or> is_mark U c"
    using assms(1) vc0 by (auto dest: in_set_takeD)
  from feed_ok [OF engine_ok_new this] have ns1: "\<not> stopped ?s1"
    by (simp add: engine_ok_def)
  have plain: "feed U (chars_of S) False ?s0 = feed U (chars_of (take i S @ drop i S)) False ?s0"
    by simp
  show ?thesis
    unfolding plain chars_of_append chars_of_Cons feed_append feed_Cons
      process_char_mark [OF ns1 assms(2)]
    by (simp add: feed_bump)
qed

text \<open>
  C9. Take a sequence of characters each of which is accepted by \<open>clean\<close> (or is itself a
  combining mark, so that marks can be inserted one after the other), a position \<open>i\<close> of the
  sequence and a combining mark \<open>m\<close>. Feeding the sequence with \<open>m\<close> inserted before the
  character at position \<open>i\<close> to a new processor gives the same final verdict as feeding the
  sequence itself, and the counter of skipped diacritics ends exactly one higher.
\<close>

theorem diacritic_transparency:
  assumes "\<forall>c \<in> set S. clean U c vc = Inr True \<or> is_mark U c"
    and "is_mark U m"
    and "i < length S"
  shows "fst (last (fst (feed U (chars_of (take i S @ m # drop i S)) False (StreamProcessor d vc))))
           = fst (last (fst (feed U (chars_of S) False (StreamProcessor d vc))))
         \<and> skipped_diacritics
             (snd (feed U (chars_of (take i S @ m # drop i S)) False (StreamProcessor d vc)))
           = skipped_diacritics (snd (feed U (chars_of S) False (StreamProcessor d vc))) + 1"
proof -
  let ?s0 = "StreamProcessor d vc"
  let ?s1 = "snd (feed U (chars_of (take i S)) False ?s0)"
  let ?tail = "fst (feed U (chars_of (drop i S)) False ?s1)"
  have "length ?tail = length (drop i S)" by (simp add: length_feed chars_of_def)
  then have ne: "?tail \<noteq> []" using assms(3) by auto
  have plain: "fst (feed U (chars_of S) False ?s0)
                 = fst (feed U (chars_of (take i S)) False ?s0) @ ?tail"
  proof -
    have "feed U (chars_of S) False ?s0 = feed U (chars_of (take i S @ drop i S)) False ?s0"
      by simp
    then show ?thesis unfolding chars_of_append feed_append by simp
  qed
  show ?thesis
    unfolding mark_inserted [OF assms(1,2)] plain using ne by (simp add: bump_def)
qed

theorem diacritic_transparency_witness:
  "is_mark ascii_unicode 769
   \<and> map fst (fst (feed ascii_unicode (chars_of [97, 769, 98, 97]) False (StreamProcessor ''ltr'' None)))
       = [True, False, False, True]
   \<and> map fst (fst (feed ascii_unicode (chars_of [97, 98, 97]) False (StreamProcessor ''ltr'' None)))
       = [True, False, True]
   \<and> skipped_diacritics (snd (feed ascii_unicode (chars_of [97, 98, 97]) False
        (StreamProcessor ''ltr'' None))) = 0
   \<and> skipped_diacritics (snd (feed ascii_unicode (chars_of [97, 769, 98, 97]) False
        (StreamProcessor ''ltr'' None))) = 1"
proof -
  have a: "\<forall>c \<in> set [97, 98, 97]. clean ascii_unicode c None = Inr True \<or> is_mark ascii_unicode c"
    by (simp add: clean_def ascii_unicode_def)
  have m: "is_mark ascii_unicode 769" by (simp add: is_mark_def ascii_unicode_def)
  have i: "(1::nat) < length [97::nat, 98, 97]" by simp
  have v: "map fst (fst (feed ascii_unicode (chars_of [97, 769, 98, 97]) False
              (StreamProcessor ''ltr'' None))) = [True, False, False, True]"
    by (simp add: eval_defs validate_loop.simps)
  have w: "map fst (fst (feed ascii_unicode (chars_of [97, 98, 97]) False
              (StreamProcessor ''ltr'' None))) = [True, False, True]"
    by (simp add: eval_defs validate_loop.simps)
  have z: "skipped_diacritics (snd (feed ascii_unicode (chars_of [97, 98, 97]) False
        (StreamProcessor ''ltr'' None))) = 0"
    by (simp add: eval_defs validate_loop.simps)
  from diacritic_transparency [OF a m i, of "''ltr''"] z
  have "skipped_diacritics (snd (feed ascii_unicode (chars_of [97, 769, 98, 97]) False
        (StreamProcessor ''ltr'' None))) = 1" by simp
  with m v w z show ?thesis by blast
qed

end
